theory Spec2Isabelle
  imports Complex_Main "HOL-Library.AList"
begin

section \<open>Python primitives used by the pipeline\<close>

text \<open>
  A Python \<open>str\<close> is a \<open>string\<close>; a \<open>char\<close> stands for a code point below 256.
  Python \<open>int\<close> is \<open>int\<close>, \<open>float\<close> is \<open>real\<close> (rounding and NaN are not modelled).
  An exception is a value of \<open>py_error\<close>; a call that may raise returns \<open>py_error + 'a\<close>.
\<close>

datatype py_error = ValueError | IndexError | KeyError | OtherError string

text \<open>The code points below 256 for which \<open>str.isspace\<close> holds.\<close>

definition is_space :: "char \<Rightarrow> bool" where
  "is_space c = (of_char c \<in> {9, 10, 11, 12, 13, 28, 29, 30, 31, 32, 133, 160 :: nat})"

text \<open>\<open>text.split()\<close>: maximal runs of non-whitespace, \<open>w\<close> being the word read so far.\<close>

fun split_acc :: "string \<Rightarrow> string \<Rightarrow> string list" where
  "split_acc w [] = (if w = [] then [] else [w])"
| "split_acc w (c # cs) =
     (if is_space c then (if w = [] then split_acc [] cs else w # split_acc [] cs)
      else split_acc (w @ [c]) cs)"

definition py_split :: "string \<Rightarrow> string list" where
  "py_split text = split_acc [] text"

text \<open>\<open>sep.join(words)\<close>.\<close>

fun py_join :: "string \<Rightarrow> string list \<Rightarrow> string" where
  "py_join sep [] = []"
| "py_join sep [w] = w"
| "py_join sep (w # v # ws) = w @ sep @ py_join sep (v # ws)"

text \<open>\<open>text.strip()\<close>.\<close>

definition py_strip :: "string \<Rightarrow> string" where
  "py_strip s = rev (dropWhile is_space (rev (dropWhile is_space s)))"

text \<open>
  \<open>range(start, stop, step)\<close>: a zero step raises \<open>ValueError\<close>; the length is the one
  CPython computes.
\<close>

definition range_len :: "int \<Rightarrow> int \<Rightarrow> int \<Rightarrow> nat" where
  "range_len start stop step =
     (if 0 < step \<and> start < stop then nat ((stop - start - 1) div step) + 1
      else if step < 0 \<and> stop < start then nat ((start - stop - 1) div (- step)) + 1
      else 0)"

definition py_range :: "int \<Rightarrow> int \<Rightarrow> int \<Rightarrow> py_error + int list" where
  "py_range start stop step =
     (if step = 0 then Inl ValueError
      else Inr (map (\<lambda>k. start + int k * step) [0..<range_len start stop step]))"

text \<open>
  \<open>xs[i:j]\<close>: a negative bound counts from the end, and both bounds are clamped to the
  list; the slice is empty when the bounds cross.
\<close>

definition slice_bound :: "nat \<Rightarrow> int \<Rightarrow> nat" where
  "slice_bound n i = (if i < 0 then nat (max 0 (int n + i)) else min n (nat i))"

definition py_slice :: "'a list \<Rightarrow> int \<Rightarrow> int \<Rightarrow> 'a list" where
  "py_slice xs i j =
     (let a = slice_bound (length xs) i; b = slice_bound (length xs) j
      in take (b - a) (drop a xs))"

section \<open>DocumentProcessor\<close>

definition clean_text :: "string \<Rightarrow> string" where
  "clean_text text = py_join '' '' (py_split (py_strip text))"

text \<open>The body of the loop of \<open>chunk_text\<close>, over the indices the range yields.\<close>

fun chunk_loop :: "string list \<Rightarrow> int \<Rightarrow> int list \<Rightarrow> string list" where
  "chunk_loop words chunk_size [] = []"
| "chunk_loop words chunk_size (i # is) =
     (let chunk = py_join '' '' (py_slice words i (i + chunk_size))
      in if py_strip chunk \<noteq> [] then chunk # chunk_loop words chunk_size is
         else chunk_loop words chunk_size is)"

definition chunk_text :: "string \<Rightarrow> int \<Rightarrow> int \<Rightarrow> py_error + string list" where
  "chunk_text text chunk_size overlap =
     (let words = py_split text
      in case py_range 0 (int (length words)) (chunk_size - overlap) of
           Inl e \<Rightarrow> Inl e
         | Inr is \<Rightarrow> Inr (chunk_loop words chunk_size is))"

text \<open>\<open>process_document\<close> passes no overlap, so \<open>chunk_text\<close> runs with its default, 50.\<close>

definition process_document :: "string \<Rightarrow> int \<Rightarrow> py_error + string list" where
  "process_document content chunk_size = chunk_text (clean_text content) chunk_size 50"

text \<open>
  Removing the declared overlap: the first chunk is kept whole, and every later chunk
  loses its first \<open>overlap\<close> words, which repeat the end of the chunk before it.
\<close>

definition de_overlap :: "nat \<Rightarrow> 'a list list \<Rightarrow> 'a list" where
  "de_overlap overlap chunks =
     (case chunks of [] \<Rightarrow> [] | c # cs \<Rightarrow> c @ concat (map (drop overlap) cs))"

text \<open>A word, as \<open>split\<close> yields it: not empty and free of whitespace.\<close>

definition is_word :: "string \<Rightarrow> bool" where
  "is_word w = (w \<noteq> [] \<and> (\<forall>c \<in> set w. \<not> is_space c))"

section \<open>\<open>rag_text_utils\<close>: chunking a text file\<close>

text \<open>
  \<open>read_text\<close> is the outcome of \<open>file_path.read_text\<close>; \<open>error_text e\<close> is the
  message the handler formats from the exception \<open>e\<close>. The whole body is inside
  \<open>try\<close>, and the handler returns a one-element list holding the message.
\<close>

fun file_chunk_loop :: "string list \<Rightarrow> int \<Rightarrow> int list \<Rightarrow> string list" where
  "file_chunk_loop words chunk_size [] = []"
| "file_chunk_loop words chunk_size (i # is) =
     (let chunk = py_join '' '' (py_slice words i (i + chunk_size))
      in if chunk \<noteq> [] then chunk # file_chunk_loop words chunk_size is
         else file_chunk_loop words chunk_size is)"

definition process_text_file_for_rag ::
  "(py_error \<Rightarrow> string) \<Rightarrow> py_error + string \<Rightarrow> int \<Rightarrow> int \<Rightarrow> string list" where
  "process_text_file_for_rag error_text read_text chunk_size overlap =
     (case (case read_text of
              Inl e \<Rightarrow> Inl e
            | Inr text \<Rightarrow>
                (let words = py_split text
                 in case py_range 0 (int (length words)) (chunk_size - overlap) of
                      Inl e \<Rightarrow> Inl e
                    | Inr is \<Rightarrow> Inr (file_chunk_loop words chunk_size is))) of
        Inl e \<Rightarrow> [error_text e]
      | Inr chunks \<Rightarrow> chunks)"


section \<open>Data records\<close>

text \<open>
  A metadata dictionary is an association list from keys to values; \<open>map_of\<close> reads a
  key, and \<open>AList.update\<close> sets one (replacing the value of a key that is present, as a
  later key of a dict display replaces an earlier one).
\<close>

datatype meta_value = MStr string | MInt int

type_synonym metadata = "(string \<times> meta_value) list"

type_synonym embedding = "real list"

record document =
  doc_ident :: string
  doc_content :: string
  doc_metadata :: metadata
  doc_timestamp :: string

text \<open>\<open>QueryResult\<close>; its \<open>embedding\<close> field is never set by the pipeline and is left out.\<close>

record query_result =
  document_id :: string
  result_content :: string
  similarity_score :: real
  result_metadata :: metadata

section \<open>The collaborators of the pipeline\<close>

text \<open>
  What \<open>collection.query\<close> answers for the single query embedding the pipeline sends:
  the lists under \<open>ids\<close>, \<open>documents\<close>, \<open>metadatas\<close> and \<open>distances\<close>;
  \<open>r_distances\<close> is \<open>None\<close> when the answer has no key \<open>distances\<close>.
\<close>

record query_response =
  r_ids :: "string list"
  r_documents :: "string list"
  r_metadatas :: "metadata list"
  r_distances :: "real list option"

text \<open>The operations the pipeline invokes on the collection, with their arguments.\<close>

datatype store_call =
    Add "string list" "string list" "embedding list" "metadata list"
  | Get metadata
  | Delete "string list"
  | Query embedding int "metadata option"

text \<open>
  The embedding model, the similarity function, the clock, the id generator and the
  vector store are not part of the repository; they are parameters. The store has a
  state of its own, of type \<open>'s\<close>; each of its operations may raise and returns the
  state it leaves. \<open>now i\<close> is the clock reading taken while chunk \<open>i\<close> is prepared.
\<close>

record 's env =
  encode :: "string list \<Rightarrow> py_error + embedding list"
  cosine :: "embedding \<Rightarrow> embedding \<Rightarrow> py_error + real"
  uuid4 :: string
  now :: "nat \<Rightarrow> string"
  coll_add :: "'s \<Rightarrow> string list \<Rightarrow> string list \<Rightarrow> embedding list \<Rightarrow> metadata list
                 \<Rightarrow> py_error option \<times> 's"
  coll_get :: "'s \<Rightarrow> metadata \<Rightarrow> (py_error + string list) \<times> 's"
  coll_delete :: "'s \<Rightarrow> string list \<Rightarrow> py_error option \<times> 's"
  coll_query :: "'s \<Rightarrow> embedding \<Rightarrow> int \<Rightarrow> metadata option
                   \<Rightarrow> (py_error + query_response) \<times> 's"

text \<open>
  The state of the pipeline: the state of its collection, and the operations invoked on
  the collection so far, oldest first.
\<close>

record 's pipeline =
  collection :: 's
  calls :: "store_call list"

definition call_add ::
  "'s env \<Rightarrow> 's pipeline \<Rightarrow> string list \<Rightarrow> string list \<Rightarrow> embedding list \<Rightarrow> metadata list
     \<Rightarrow> py_error option \<times> 's pipeline" where
  "call_add env st ids documents embeddings metadatas =
     (case coll_add env (collection st) ids documents embeddings metadatas of
        (r, s) \<Rightarrow> (r, \<lparr>collection = s, calls = calls st @ [Add ids documents embeddings metadatas]\<rparr>))"

definition call_get ::
  "'s env \<Rightarrow> 's pipeline \<Rightarrow> metadata \<Rightarrow> (py_error + string list) \<times> 's pipeline" where
  "call_get env st where_clause =
     (case coll_get env (collection st) where_clause of
        (r, s) \<Rightarrow> (r, \<lparr>collection = s, calls = calls st @ [Get where_clause]\<rparr>))"

definition call_delete ::
  "'s env \<Rightarrow> 's pipeline \<Rightarrow> string list \<Rightarrow> py_error option \<times> 's pipeline" where
  "call_delete env st ids =
     (case coll_delete env (collection st) ids of
        (r, s) \<Rightarrow> (r, \<lparr>collection = s, calls = calls st @ [Delete ids]\<rparr>))"

definition call_query ::
  "'s env \<Rightarrow> 's pipeline \<Rightarrow> embedding \<Rightarrow> int \<Rightarrow> metadata option
     \<Rightarrow> (py_error + query_response) \<times> 's pipeline" where
  "call_query env st query_embedding n_results where_clause =
     (case coll_query env (collection st) query_embedding n_results where_clause of
        (r, s) \<Rightarrow> (r, \<lparr>collection = s,
                       calls = calls st @ [Query query_embedding n_results where_clause]\<rparr>))"

section \<open>More Python primitives\<close>

text \<open>\<open>xs[i]\<close> for an index that is not negative.\<close>

definition py_index :: "'a list \<Rightarrow> nat \<Rightarrow> py_error + 'a" where
  "py_index xs i = (if i < length xs then Inr (xs ! i) else Inl IndexError)"

text \<open>\<open>str(i)\<close> for an index \<open>i\<close>, in decimal.\<close>

fun str_nat :: "nat \<Rightarrow> string" where
  "str_nat n =
     (if n < 10 then [''0123456789'' ! n]
      else str_nat (n div 10) @ [''0123456789'' ! (n mod 10)])"

declare str_nat.simps [simp del]

text \<open>
  \<open>xs.sort(key=key, reverse=True)\<close>: descending by key, and stable, so elements with
  equal keys keep the order they had.
\<close>

definition py_sort_reverse :: "('a \<Rightarrow> real) \<Rightarrow> 'a list \<Rightarrow> 'a list" where
  "py_sort_reverse key xs = rev (sort_key key (rev xs))"

section \<open>AdvancedRAGPipeline\<close>

subsection \<open>\<open>add_document\<close>\<close>

text \<open>
  The loop over \<open>enumerate(zip(chunks, embeddings))\<close>, which fills the four lists handed
  to the collection.
\<close>

fun prepare_chunks ::
  "(nat \<Rightarrow> string) \<Rightarrow> string \<Rightarrow> metadata \<Rightarrow> nat \<Rightarrow> (nat \<times> string \<times> embedding) list
     \<Rightarrow> string list \<times> string list \<times> embedding list \<times> metadata list" where
  "prepare_chunks clock doc_id metadata chunk_count [] = ([], [], [], [])"
| "prepare_chunks clock doc_id metadata chunk_count ((i, chunk, embedding) # rest) =
     (let chunk_id = doc_id @ ''_chunk_'' @ str_nat i;
          chunk_meta =
            AList.update ''timestamp'' (MStr (clock i))
              (AList.update ''chunk_count'' (MInt (int chunk_count))
                (AList.update ''chunk_index'' (MInt (int i))
                  (AList.update ''parent_doc_id'' (MStr doc_id) metadata)))
      in case prepare_chunks clock doc_id metadata chunk_count rest of
           (chunk_ids, chunk_documents, chunk_embeddings, chunk_metadata) \<Rightarrow>
             (chunk_id # chunk_ids, chunk # chunk_documents,
              embedding # chunk_embeddings, chunk_meta # chunk_metadata))"

definition add_document ::
  "'s env \<Rightarrow> 's pipeline \<Rightarrow> string \<Rightarrow> string option \<Rightarrow> metadata option \<Rightarrow> int
     \<Rightarrow> (py_error + string list) \<times> 's pipeline" where
  "add_document env st content doc_id_opt metadata_opt chunk_size =
     (let doc_id = (case doc_id_opt of None \<Rightarrow> uuid4 env | Some d \<Rightarrow> d);
          metadata = (case metadata_opt of None \<Rightarrow> [] | Some m \<Rightarrow> m)
      in case process_document content chunk_size of
           Inl e \<Rightarrow> (Inl e, st)
         | Inr chunks \<Rightarrow>
             (case encode env chunks of
                Inl e \<Rightarrow> (Inl e, st)
              | Inr embeddings \<Rightarrow>
                  (case prepare_chunks (now env) doc_id metadata (length chunks)
                          (enumerate 0 (zip chunks embeddings)) of
                     (chunk_ids, chunk_documents, chunk_embeddings, chunk_metadata) \<Rightarrow>
                       (case call_add env st chunk_ids chunk_documents chunk_embeddings
                               chunk_metadata of
                          (Some e, st') \<Rightarrow> (Inl e, st')
                        | (None, st') \<Rightarrow> (Inr chunk_ids, st')))))"

subsection \<open>\<open>add_documents_batch\<close>\<close>

text \<open>The inner loop, over the documents of one batch; an exception leaves it at once.\<close>

fun add_batch ::
  "'s env \<Rightarrow> 's pipeline \<Rightarrow> document list \<Rightarrow> int \<Rightarrow> (py_error + string list) \<times> 's pipeline" where
  "add_batch env st [] chunk_size = (Inr [], st)"
| "add_batch env st (doc # batch) chunk_size =
     (case add_document env st (doc_content doc) (Some (doc_ident doc)) (Some (doc_metadata doc))
             chunk_size of
        (Inl e, st') \<Rightarrow> (Inl e, st')
      | (Inr chunk_ids, st') \<Rightarrow>
          (case add_batch env st' batch chunk_size of
             (Inl e, st'') \<Rightarrow> (Inl e, st'')
           | (Inr batch_ids, st'') \<Rightarrow> (Inr (chunk_ids @ batch_ids), st'')))"

text \<open>The outer loop, over the batch starts.\<close>

fun add_batches ::
  "'s env \<Rightarrow> 's pipeline \<Rightarrow> document list \<Rightarrow> int \<Rightarrow> int \<Rightarrow> int list
     \<Rightarrow> (py_error + string list) \<times> 's pipeline" where
  "add_batches env st documents chunk_size batch_size [] = (Inr [], st)"
| "add_batches env st documents chunk_size batch_size (i # is) =
     (case add_batch env st (py_slice documents i (i + batch_size)) chunk_size of
        (Inl e, st') \<Rightarrow> (Inl e, st')
      | (Inr batch_ids, st') \<Rightarrow>
          (case add_batches env st' documents chunk_size batch_size is of
             (Inl e, st'') \<Rightarrow> (Inl e, st'')
           | (Inr all_chunk_ids, st'') \<Rightarrow> (Inr (batch_ids @ all_chunk_ids), st'')))"

definition add_documents_batch ::
  "'s env \<Rightarrow> 's pipeline \<Rightarrow> document list \<Rightarrow> int \<Rightarrow> int
     \<Rightarrow> (py_error + string list) \<times> 's pipeline" where
  "add_documents_batch env st documents chunk_size batch_size =
     (case py_range 0 (int (length documents)) batch_size of
        Inl e \<Rightarrow> (Inl e, st)
      | Inr is \<Rightarrow> add_batches env st documents chunk_size batch_size is)"

subsection \<open>\<open>search\<close>\<close>

text \<open>The loop over \<open>range(len(results['ids'][0]))\<close>.\<close>

fun search_loop :: "query_response \<Rightarrow> real \<Rightarrow> nat list \<Rightarrow> py_error + query_result list" where
  "search_loop results min_similarity [] = Inr []"
| "search_loop results min_similarity (i # is) =
     (case py_index (r_ids results) i of
        Inl e \<Rightarrow> Inl e
      | Inr hit_id \<Rightarrow>
     (case py_index (r_documents results) i of
        Inl e \<Rightarrow> Inl e
      | Inr hit_content \<Rightarrow>
     (case py_index (r_metadatas results) i of
        Inl e \<Rightarrow> Inl e
      | Inr hit_metadata \<Rightarrow>
     (case (case r_distances results of
              None \<Rightarrow> Inr None
            | Some ds \<Rightarrow> (case py_index ds i of Inl e \<Rightarrow> Inl e | Inr d \<Rightarrow> Inr (Some d))) of
        Inl e \<Rightarrow> Inl e
      | Inr distance \<Rightarrow>
          (let score = (case distance of Some d \<Rightarrow> 1 - d | None \<Rightarrow> 0)
           in case search_loop results min_similarity is of
                Inl e \<Rightarrow> Inl e
              | Inr query_results \<Rightarrow>
                  if score \<ge> min_similarity
                  then Inr (\<lparr>document_id = hit_id, result_content = hit_content,
                             similarity_score = score, result_metadata = hit_metadata\<rparr>
                            # query_results)
                  else Inr query_results)))))"

definition search ::
  "'s env \<Rightarrow> 's pipeline \<Rightarrow> string \<Rightarrow> int \<Rightarrow> metadata option \<Rightarrow> real
     \<Rightarrow> (py_error + query_result list) \<times> 's pipeline" where
  "search env st query n_results filter_metadata min_similarity =
     (case encode env [query] of
        Inl e \<Rightarrow> (Inl e, st)
      | Inr embeddings \<Rightarrow>
     (case py_index embeddings 0 of
        Inl e \<Rightarrow> (Inl e, st)
      | Inr query_embedding \<Rightarrow>
          (let where_clause =
                 (case filter_metadata of
                    None \<Rightarrow> None
                  | Some m \<Rightarrow> if m \<noteq> [] then Some m else None)
           in case call_query env st query_embedding n_results where_clause of
                (Inl e, st') \<Rightarrow> (Inl e, st')
              | (Inr results, st') \<Rightarrow>
                  (search_loop results min_similarity [0..<length (r_ids results)], st'))))"

subsection \<open>\<open>delete_document\<close> and \<open>update_document\<close>\<close>

text \<open>The body of the \<open>try\<close> block.\<close>

definition delete_document_body ::
  "'s env \<Rightarrow> 's pipeline \<Rightarrow> string \<Rightarrow> (py_error + bool) \<times> 's pipeline" where
  "delete_document_body env st doc_id =
     (case call_get env st [(''parent_doc_id'', MStr doc_id)] of
        (Inl e, st') \<Rightarrow> (Inl e, st')
      | (Inr ids, st') \<Rightarrow>
          if ids \<noteq> []
          then (case call_delete env st' ids of
                  (Some e, st'') \<Rightarrow> (Inl e, st'')
                | (None, st'') \<Rightarrow> (Inr True, st''))
          else (Inr False, st'))"

text \<open>The handler \<open>except Exception\<close> turns every exception of the body into \<open>False\<close>.\<close>

definition delete_document ::
  "'s env \<Rightarrow> 's pipeline \<Rightarrow> string \<Rightarrow> (py_error + bool) \<times> 's pipeline" where
  "delete_document env st doc_id =
     (case delete_document_body env st doc_id of
        (Inl e, st') \<Rightarrow> (Inr False, st')
      | (Inr b, st') \<Rightarrow> (Inr b, st'))"

definition update_document ::
  "'s env \<Rightarrow> 's pipeline \<Rightarrow> string \<Rightarrow> string \<Rightarrow> metadata option \<Rightarrow> int
     \<Rightarrow> (py_error + string list) \<times> 's pipeline" where
  "update_document env st doc_id new_content new_metadata chunk_size =
     (case delete_document env st doc_id of
        (Inl e, st') \<Rightarrow> (Inl e, st')
      | (Inr b, st') \<Rightarrow> add_document env st' new_content (Some doc_id) new_metadata chunk_size)"

subsection \<open>\<open>semantic_search_with_reranking\<close>\<close>

text \<open>The loop that re-embeds the content of each result and overwrites its score.\<close>

fun rerank_loop ::
  "'s env \<Rightarrow> embedding \<Rightarrow> query_result list \<Rightarrow> py_error + query_result list" where
  "rerank_loop env query_embedding [] = Inr []"
| "rerank_loop env query_embedding (result # initial_results) =
     (case encode env [result_content result] of
        Inl e \<Rightarrow> Inl e
      | Inr embeddings \<Rightarrow>
     (case py_index embeddings 0 of
        Inl e \<Rightarrow> Inl e
      | Inr doc_embedding \<Rightarrow>
     (case cosine env query_embedding doc_embedding of
        Inl e \<Rightarrow> Inl e
      | Inr similarity \<Rightarrow>
     (case rerank_loop env query_embedding initial_results of
        Inl e \<Rightarrow> Inl e
      | Inr reranked_results \<Rightarrow>
          Inr (result\<lparr>similarity_score := similarity\<rparr> # reranked_results)))))"

definition semantic_search_with_reranking ::
  "'s env \<Rightarrow> 's pipeline \<Rightarrow> string \<Rightarrow> int \<Rightarrow> int
     \<Rightarrow> (py_error + query_result list) \<times> 's pipeline" where
  "semantic_search_with_reranking env st query n_results rerank_top_k =
     (case search env st query n_results None 0 of
        (Inl e, st') \<Rightarrow> (Inl e, st')
      | (Inr initial_results, st') \<Rightarrow>
          if initial_results = [] then (Inr [], st')
          else
            (case encode env [query] of
               Inl e \<Rightarrow> (Inl e, st')
             | Inr embeddings \<Rightarrow>
            (case py_index embeddings 0 of
               Inl e \<Rightarrow> (Inl e, st')
             | Inr query_embedding \<Rightarrow>
            (case rerank_loop env query_embedding initial_results of
               Inl e \<Rightarrow> (Inl e, st')
             | Inr reranked_results \<Rightarrow>
                 (Inr (py_slice (py_sort_reverse similarity_score reranked_results) 0
                         rerank_top_k), st')))))"


section \<open>An in-memory collection and a toy embedding model\<close>

text \<open>
  A concrete environment on which the pipeline can be run: the collection is the list
  of its records, \<open>add\<close> appends, \<open>get\<close> selects the records whose metadata agree with
  the filter, \<open>delete\<close> removes by id, and \<open>query\<close> answers the nearest records first.
  The toy model embeds a text as one of two unit vectors, so the dot product of two
  embeddings is their cosine similarity, and one minus it their cosine distance.
\<close>

record chunk_record =
  rec_id :: string
  rec_document :: string
  rec_embedding :: embedding
  rec_metadata :: metadata

definition matches :: "metadata \<Rightarrow> chunk_record \<Rightarrow> bool" where
  "matches where_clause r = list_all (\<lambda>(k, v). map_of (rec_metadata r) k = Some v) where_clause"

definition dot :: "embedding \<Rightarrow> embedding \<Rightarrow> real" where
  "dot a b = sum_list (map (\<lambda>(x, y). x * y) (zip a b))"

definition mem_add ::
  "chunk_record list \<Rightarrow> string list \<Rightarrow> string list \<Rightarrow> embedding list \<Rightarrow> metadata list
     \<Rightarrow> py_error option \<times> chunk_record list" where
  "mem_add s ids documents embeddings metadatas =
     (None, s @ map (\<lambda>(i, d, e, m). \<lparr>rec_id = i, rec_document = d, rec_embedding = e,
                                      rec_metadata = m\<rparr>)
                  (zip ids (zip documents (zip embeddings metadatas))))"

definition mem_get ::
  "chunk_record list \<Rightarrow> metadata \<Rightarrow> (py_error + string list) \<times> chunk_record list" where
  "mem_get s where_clause = (Inr (map rec_id (filter (matches where_clause) s)), s)"

definition mem_delete ::
  "chunk_record list \<Rightarrow> string list \<Rightarrow> py_error option \<times> chunk_record list" where
  "mem_delete s ids = (None, filter (\<lambda>r. rec_id r \<notin> set ids) s)"

definition mem_query ::
  "chunk_record list \<Rightarrow> embedding \<Rightarrow> int \<Rightarrow> metadata option
     \<Rightarrow> (py_error + query_response) \<times> chunk_record list" where
  "mem_query s query_embedding n_results where_clause =
     (if n_results \<le> 0 then (Inl ValueError, s)
      else
        (let candidates = (case where_clause of None \<Rightarrow> s | Some w \<Rightarrow> filter (matches w) s);
             hits = take (nat n_results)
                      (sort_key (\<lambda>r. 1 - dot query_embedding (rec_embedding r)) candidates)
         in (Inr \<lparr>r_ids = map rec_id hits, r_documents = map rec_document hits,
                  r_metadatas = map rec_metadata hits,
                  r_distances = Some (map (\<lambda>r. 1 - dot query_embedding (rec_embedding r)) hits)\<rparr>,
             s)))"

definition mem_encode :: "string list \<Rightarrow> py_error + embedding list" where
  "mem_encode texts = Inr (map (\<lambda>t. if even (length t) then [1, 0] else [0, 1]) texts)"

definition mem_env :: "chunk_record list env" where
  "mem_env =
     \<lparr>encode = mem_encode, cosine = (\<lambda>a b. Inr (dot a b)), uuid4 = ''generated'',
      now = (\<lambda>i. ''now''), coll_add = mem_add, coll_get = mem_get, coll_delete = mem_delete,
      coll_query = mem_query\<rparr>"

text \<open>The same environment with a model that fails on every batch holding the text \<open>bad\<close>.\<close>

definition flaky_env :: "chunk_record list env" where
  "flaky_env =
     mem_env\<lparr>encode := (\<lambda>texts. if ''bad'' \<in> set texts then Inl (OtherError ''model failed'')
                                 else mem_encode texts)\<rparr>"

text \<open>The same environment with a store whose \<open>get\<close> always fails.\<close>

definition broken_env :: "chunk_record list env" where
  "broken_env = mem_env\<lparr>coll_get := (\<lambda>s w. (Inl (OtherError ''store down''), s))\<rparr>"

definition empty_pipeline :: "chunk_record list pipeline" where
  "empty_pipeline = \<lparr>collection = [], calls = []\<rparr>"

text \<open>A collection holding one chunk each of three documents, two of them with the same text.\<close>

definition demo_pipeline :: "chunk_record list pipeline" where
  "demo_pipeline =
     \<lparr>collection =
        [\<lparr>rec_id = ''b_chunk_0'', rec_document = ''x'', rec_embedding = [0, 1],
          rec_metadata = [(''parent_doc_id'', MStr ''b'')]\<rparr>,
         \<lparr>rec_id = ''a_chunk_0'', rec_document = ''x'', rec_embedding = [0, 1],
          rec_metadata = [(''parent_doc_id'', MStr ''a'')]\<rparr>,
         \<lparr>rec_id = ''c_chunk_0'', rec_document = ''xy'', rec_embedding = [1, 0],
          rec_metadata = [(''parent_doc_id'', MStr ''c'')]\<rparr>],
      calls = []\<rparr>"


section \<open>What the pipeline expects of the collection\<close>

text \<open>
  The contract of \<open>get\<close> and \<open>delete\<close>, relative to a reading \<open>records\<close> of the state
  of the collection as the records it holds: \<open>get\<close> succeeds, changes nothing and
  answers the ids of the records whose metadata agree with the filter; \<open>delete\<close>
  succeeds and removes the records with the given ids, and no other.
\<close>

definition store_contract :: "('s \<Rightarrow> chunk_record list) \<Rightarrow> 's env \<Rightarrow> bool" where
  "store_contract records env \<longleftrightarrow>
     (\<forall>s w. \<exists>ids s'. coll_get env s w = (Inr ids, s') \<and> records s' = records s
        \<and> set ids = rec_id ` {r \<in> set (records s). matches w r})
     \<and> (\<forall>s ids. \<exists>s'. coll_delete env s ids = (None, s')
        \<and> set (records s') = {r \<in> set (records s). rec_id r \<notin> set ids})"


section \<open>Properties of chunking\<close>

lemma split_acc_words:
  "\<forall>c \<in> set w. \<not> is_space c \<Longrightarrow> u \<in> set (split_acc w t) \<Longrightarrow> is_word u"
proof (induction t arbitrary: w)
  case Nil
  then show ?case by (cases "w = []") (simp_all add: is_word_def)
next
  case (Cons c cs)
  show ?case
  proof (cases "is_space c")
    case False
    with Cons.prems have "\<forall>d \<in> set (w @ [c]). \<not> is_space d" "u \<in> set (split_acc (w @ [c]) cs)"
      by simp_all
    then show ?thesis by (rule Cons.IH)
  next
    case True
    have e: "\<forall>d \<in> set ([] :: string). \<not> is_space d" by simp
    show ?thesis
    proof (cases "w = []")
      case True
      with \<open>is_space c\<close> Cons.prems have "u \<in> set (split_acc [] cs)" by simp
      with e show ?thesis by (rule Cons.IH)
    next
      case False
      with \<open>is_space c\<close> Cons.prems have "u = w \<or> u \<in> set (split_acc [] cs)" by simp
      then show ?thesis
      proof
        assume "u = w"
        with False Cons.prems(1) show ?thesis by (simp add: is_word_def)
      next
        assume "u \<in> set (split_acc [] cs)"
        with e show ?thesis by (rule Cons.IH)
      qed
    qed
  qed
qed

lemma py_split_words: "u \<in> set (py_split t) \<Longrightarrow> is_word u"
  unfolding py_split_def by (rule split_acc_words [of "[]"]) auto

lemma split_acc_nonspace:
  "\<forall>c \<in> set u. \<not> is_space c \<Longrightarrow> split_acc w (u @ r) = split_acc (w @ u) r"
  by (induction u arbitrary: w) auto

lemma is_space_blank: "is_space CHR '' ''"
  by (simp add: is_space_def)

lemma split_acc_join:
  "\<forall>u \<in> set ws. is_word u \<Longrightarrow> split_acc [] (py_join '' '' ws) = ws"
proof (induction "'' ''" ws rule: py_join.induct)
  case 1
  then show ?case by simp
next
  case (2 w)
  then have "\<forall>c \<in> set w. \<not> is_space c" "w \<noteq> []" by (auto simp: is_word_def)
  then show ?case using split_acc_nonspace [of w "[]" "[]"] by simp
next
  case (3 w v ws)
  then have w: "\<forall>c \<in> set w. \<not> is_space c" "w \<noteq> []" by (auto simp: is_word_def)
  from 3 have IH: "split_acc [] (py_join '' '' (v # ws)) = v # ws" by simp
  have "split_acc [] (w @ '' '' @ py_join '' '' (v # ws)) = split_acc w ('' '' @ py_join '' '' (v # ws))"
    using split_acc_nonspace [OF w(1), of "[]"] by simp
  also have "\<dots> = w # split_acc [] (py_join '' '' (v # ws))"
    using w(2) is_space_blank by simp
  finally show ?case using IH by simp
qed

lemma py_split_join: "\<forall>u \<in> set ws. is_word u \<Longrightarrow> py_split (py_join '' '' ws) = ws"
  by (simp add: py_split_def split_acc_join)

lemma py_strip_empty_iff: "py_strip s = [] \<longleftrightarrow> (\<forall>c \<in> set s. is_space c)"
proof -
  have "py_strip s = [] \<longleftrightarrow> (\<forall>c \<in> set (dropWhile is_space s). is_space c)"
    by (simp add: py_strip_def)
  also have "\<dots> \<longleftrightarrow> (\<forall>c \<in> set s. is_space c)"
  proof
    assume a: "\<forall>c \<in> set (dropWhile is_space s). is_space c"
    show "\<forall>c \<in> set s. is_space c"
    proof (cases "dropWhile is_space s")
      case Nil
      then show ?thesis by simp
    next
      case (Cons d ds)
      with hd_dropWhile [of is_space s] have "\<not> is_space d" by simp
      with a Cons show ?thesis by simp
    qed
  next
    assume "\<forall>c \<in> set s. is_space c"
    then show "\<forall>c \<in> set (dropWhile is_space s). is_space c"
      by (auto dest: set_dropWhileD)
  qed
  finally show ?thesis .
qed

lemma set_py_join: "ws \<noteq> [] \<Longrightarrow> set (hd ws) \<subseteq> set (py_join sep ws)"
  by (induction sep ws rule: py_join.induct) auto

lemma py_strip_join_words:
  assumes "ws \<noteq> []" "\<forall>u \<in> set ws. is_word u"
  shows "py_strip (py_join '' '' ws) \<noteq> []"
proof -
  from assms have "is_word (hd ws)" by (cases ws) auto
  then obtain c where "c \<in> set (hd ws)" "\<not> is_space c"
    by (cases "hd ws") (auto simp: is_word_def)
  with set_py_join [OF assms(1)] show ?thesis
    by (auto simp: py_strip_empty_iff)
qed

lemma py_slice_nonneg:
  assumes "0 \<le> i" "0 \<le> j"
  shows "py_slice xs i j = take (nat j - nat i) (drop (nat i) xs)"
proof (cases "nat i < length xs")
  case True
  have "take (min (length xs) (nat j) - nat i) (drop (nat i) xs) = take (nat j - nat i) (drop (nat i) xs)"
    by (cases "nat j \<le> length xs") (simp_all add: min_def)
  with True assms show ?thesis
    by (simp add: py_slice_def slice_bound_def Let_def min_def)
next
  case False
  with assms show ?thesis
    by (simp add: py_slice_def slice_bound_def Let_def min_def)
qed

lemma range_len_up:
  assumes "0 < s"
  shows "range_len 0 (int n) (int s) = (n + s - 1) div s"
proof (cases "n = 0")
  case True
  with assms show ?thesis by (simp add: range_len_def)
next
  case False
  then obtain n' where n: "n = Suc n'" by (cases n) auto
  have "nat (int n' div int s) = n' div s"
    by (simp add: zdiv_int [symmetric])
  moreover have "(n' + s) div s = Suc (n' div s)"
    using assms by simp
  ultimately show ?thesis using assms n by (simp add: range_len_def)
qed

lemma py_range_up:
  "0 < s \<Longrightarrow> py_range 0 (int n) (int s) = Inr (map (\<lambda>k. int (k * s)) [0..<(n + s - 1) div s])"
  by (simp add: py_range_def range_len_up)

lemma window_start_less:
  assumes "0 < s" "k < (n + s - 1) div s"
  shows "k * s < (n::nat)"
proof -
  from assms have "Suc k \<le> (n + s - 1) div s" by simp
  with assms(1) have "Suc k * s \<le> n + s - 1"
    by (simp add: less_eq_div_iff_mult_less_eq)
  with assms(1) show ?thesis by simp
qed

lemma chunk_loop_map:
  assumes "\<forall>u \<in> set words. is_word u" "0 < c"
    and "\<forall>i \<in> set is. 0 \<le> i \<and> nat i < length words"
  shows "chunk_loop words c is = map (\<lambda>i. py_join '' '' (take (nat c) (drop (nat i) words))) is"
  using assms(3)
proof (induction "is")
  case Nil
  then show ?case by simp
next
  case (Cons i "is")
  let ?w = "take (nat c) (drop (nat i) words)"
  from Cons.prems have i: "0 \<le> i" "nat i < length words" by simp_all
  with assms(2) have sl: "py_slice words i (i + c) = ?w"
    by (simp add: py_slice_nonneg nat_add_distrib)
  from i assms(2) have ne: "?w \<noteq> []" by simp
  have "set ?w \<subseteq> set words"
    by (meson set_take_subset set_drop_subset subset_trans)
  with assms(1) have "\<forall>u \<in> set ?w. is_word u" by blast
  with ne have "py_strip (py_join '' '' ?w) \<noteq> []" by (rule py_strip_join_words)
  moreover from Cons have "chunk_loop words c is = map (\<lambda>i. py_join '' '' (take (nat c) (drop (nat i) words))) is"
    by simp
  ultimately show ?case using sl by simp
qed

lemma de_overlap_prefix:
  assumes "ov < c"
  shows "take c ws @ concat (map (\<lambda>k. drop ov (take c (drop (k * (c - ov)) ws))) [1..<Suc j])
         = take (j * (c - ov) + c) ws"
proof (induction j)
  case 0
  then show ?case by simp
next
  case (Suc j)
  let ?s = "c - ov"
  have "drop ov (take c (drop (Suc j * ?s) ws)) = take ?s (drop (ov + Suc j * ?s) ws)"
    by (simp add: drop_take)
  also have "ov + Suc j * ?s = j * ?s + c" using assms by simp
  finally have step: "drop ov (take c (drop (Suc j * ?s) ws)) = take ?s (drop (j * ?s + c) ws)" .
  have "take c ws @ concat (map (\<lambda>k. drop ov (take c (drop (k * ?s) ws))) [1..<Suc (Suc j)])
        = take (j * ?s + c) ws @ take ?s (drop (j * ?s + c) ws)"
    using Suc.IH step by simp
  also have "\<dots> = take (j * ?s + c + ?s) ws"
    by (simp add: take_add)
  also have "j * ?s + c + ?s = Suc j * ?s + c" by simp
  finally show ?case .
qed

lemma de_overlap_windows:
  assumes "ov < c"
  shows "de_overlap ov (map (\<lambda>k. take c (drop (k * (c - ov)) ws))
           [0..<(length ws + (c - ov) - 1) div (c - ov)]) = ws"
proof (cases "ws = []")
  case True
  with assms show ?thesis by (simp add: de_overlap_def)
next
  case False
  let ?s = "c - ov"
  let ?m = "(length ws + ?s - 1) div ?s"
  from assms have s: "0 < ?s" by simp
  from False have "?s \<le> length ws + ?s - 1" by (cases ws) auto
  with s have "1 \<le> ?m" by (simp add: less_eq_div_iff_mult_less_eq)
  then obtain j where m: "?m = Suc j" by (cases ?m) auto
  have "length ws \<le> ?m * ?s"
  proof -
    have "(length ws + ?s - 1) mod ?s < ?s" using s by simp
    moreover have "?m * ?s + (length ws + ?s - 1) mod ?s = length ws + ?s - 1"
      by (rule div_mult_mod_eq)
    ultimately show ?thesis by linarith
  qed
  with m assms have cover: "length ws \<le> j * ?s + c" by simp
  have "[0..<Suc j] = 0 # [1..<Suc j]" by (simp add: upt_conv_Cons)
  then have "de_overlap ov (map (\<lambda>k. take c (drop (k * ?s) ws)) [0..<Suc j])
        = take c ws @ concat (map (\<lambda>k. drop ov (take c (drop (k * ?s) ws))) [1..<Suc j])"
    by (simp add: de_overlap_def comp_def)
  also have "\<dots> = take (j * ?s + c) ws" by (rule de_overlap_prefix [OF assms])
  also have "\<dots> = ws" using cover by simp
  finally show ?thesis using m by simp
qed

lemma chunk_text_windows:
  assumes "0 \<le> overlap" "overlap < chunk_size"
  shows "chunk_text T chunk_size overlap =
     Inr (map (\<lambda>k. py_join '' '' (take (nat chunk_size) (drop (k * nat (chunk_size - overlap)) (py_split T))))
       [0..<(length (py_split T) + nat (chunk_size - overlap) - 1) div nat (chunk_size - overlap)])"
proof -
  let ?ws = "py_split T"
  let ?s = "nat (chunk_size - overlap)"
  let ?m = "(length ?ws + ?s - 1) div ?s"
  from assms have s: "0 < ?s" and c: "0 < chunk_size" by simp_all
  from s have r: "py_range 0 (int (length ?ws)) (chunk_size - overlap) = Inr (map (\<lambda>k. int (k * ?s)) [0..<?m])"
    using py_range_up [of ?s "length ?ws"] by simp
  have w: "\<forall>u \<in> set ?ws. is_word u" by (simp add: py_split_words)
  have "\<forall>i \<in> set (map (\<lambda>k. int (k * ?s)) [0..<?m]). 0 \<le> i \<and> nat i < length ?ws"
  proof
    fix i assume "i \<in> set (map (\<lambda>k. int (k * ?s)) [0..<?m])"
    then obtain k where k: "k < ?m" "i = int (k * ?s)" by auto
    from window_start_less [OF s k(1)] have "k * ?s < length ?ws" .
    with k(2) show "0 \<le> i \<and> nat i < length ?ws" by (simp only: nat_int of_nat_0_le_iff simp_thms)
  qed
  with w c have "chunk_loop ?ws chunk_size (map (\<lambda>k. int (k * ?s)) [0..<?m])
      = map (\<lambda>i. py_join '' '' (take (nat chunk_size) (drop (nat i) ?ws))) (map (\<lambda>k. int (k * ?s)) [0..<?m])"
    by (rule chunk_loop_map)
  then show ?thesis using r by (simp add: chunk_text_def comp_def Let_def del: of_nat_mult)
qed

lemma single_window:
  assumes "0 < n" "n \<le> s"
  shows "(n + s - 1) div s = (1::nat)"
proof (rule div_nat_eqI)
  have "s \<le> n + s - 1" using assms by linarith
  then show "s * 1 \<le> n + s - 1" by simp
  have "n + s - 1 < s + s" using assms by linarith
  then show "n + s - 1 < s * Suc 1" by simp
qed

text \<open>
  Claim C1, as the code has it. For every text and every \<open>0 \<le> overlap < chunk_size\<close>,
  \<open>chunk_text\<close> returns, without error, one chunk per window start \<open>0, s, 2s, \<dots>\<close>
  below the number of words, \<open>s = chunk_size - overlap\<close>; chunk \<open>k\<close> joins the words
  \<open>k * s\<close> up to \<open>k * s + chunk_size\<close> (fewer at the end of the text). Splitting the
  chunks back into words and dropping the first \<open>overlap\<close> words of every chunk but the
  first gives the words of the text, each once and in order. A text without words gives
  no chunk. A text of at most \<open>chunk_size - overlap\<close> words gives one chunk holding all
  its words.
\<close>

theorem chunk_text_reconstructs:
  assumes "0 \<le> overlap" "overlap < chunk_size"
  shows "\<exists>chunks. chunk_text T chunk_size overlap = Inr chunks
     \<and> length chunks = (length (py_split T) + nat (chunk_size - overlap) - 1) div nat (chunk_size - overlap)
     \<and> (\<forall>k < length chunks. chunks ! k =
           py_join '' '' (take (nat chunk_size) (drop (k * nat (chunk_size - overlap)) (py_split T))))
     \<and> de_overlap (nat overlap) (map py_split chunks) = py_split T
     \<and> (py_split T = [] \<longrightarrow> chunks = [])
     \<and> (py_split T \<noteq> [] \<and> length (py_split T) \<le> nat (chunk_size - overlap)
           \<longrightarrow> chunks = [py_join '' '' (py_split T)])"
proof -
  let ?ws = "py_split T"
  let ?c = "nat chunk_size"
  let ?s = "nat (chunk_size - overlap)"
  let ?m = "(length ?ws + ?s - 1) div ?s"
  let ?chunks = "map (\<lambda>k. py_join '' '' (take ?c (drop (k * ?s) ?ws))) [0..<?m]"
  from assms have s: "0 < ?s" and sc: "?s = ?c - nat overlap" and oc: "nat overlap < ?c"
    by simp_all
  have ct: "chunk_text T chunk_size overlap = Inr ?chunks"
    by (rule chunk_text_windows [OF assms])
  have len: "length ?chunks = ?m" by simp
  have nth: "\<forall>k < length ?chunks. ?chunks ! k = py_join '' '' (take ?c (drop (k * ?s) ?ws))"
    by simp
  have "\<forall>u \<in> set (take ?c (drop (k * ?s) ?ws)). is_word u" for k
    using py_split_words [of _ T] by (meson in_set_takeD in_set_dropD)
  then have mp: "map py_split ?chunks = map (\<lambda>k. take ?c (drop (k * ?s) ?ws)) [0..<?m]"
    by (simp add: py_split_join)
  have rec: "de_overlap (nat overlap) (map py_split ?chunks) = ?ws"
  proof -
    have "de_overlap (nat overlap) (map (\<lambda>k. take ?c (drop (k * ?s) ?ws)) [0..<?m]) = ?ws"
      unfolding sc by (rule de_overlap_windows [OF oc])
    then show ?thesis by (simp only: mp)
  qed
  have emp: "?ws = [] \<longrightarrow> ?chunks = []" using s by simp
  have one: "?ws \<noteq> [] \<and> length ?ws \<le> ?s \<longrightarrow> ?chunks = [py_join '' '' ?ws]"
  proof
    assume a: "?ws \<noteq> [] \<and> length ?ws \<le> ?s"
    then have l: "0 < length ?ws" "length ?ws \<le> ?s" by simp_all
    then have m1: "?m = 1" by (rule single_window)
    from l sc have "length ?ws \<le> ?c" by linarith
    then have "take ?c ?ws = ?ws" by simp
    then show "?chunks = [py_join '' '' ?ws]" unfolding m1 by simp
  qed
  show ?thesis
    by (intro exI [of _ ?chunks] conjI) (fact ct len nth rec emp one)+
qed

theorem chunk_text_reconstructs_witness:
  "(0::int) \<le> 1 \<and> (1::int) < 2
   \<and> chunk_text ''a b c'' 2 1 = Inr [''a b'', ''b c'', ''c'']
   \<and> de_overlap (nat 1) (map py_split [''a b'', ''b c'', ''c'']) = py_split ''a b c''"
proof -
  have e: "chunk_text ''a b c'' 2 1 = Inr [''a b'', ''b c'', ''c'']" by code_simp
  from chunk_text_reconstructs [of 1 2 "''a b c''"] e show ?thesis by auto
qed

text \<open>
  Claim C1 as stated fails in its last part: a text with fewer than \<open>chunk_size\<close> words
  but more than \<open>chunk_size - overlap\<close> gives more than one chunk, since the range still
  yields every window start below the number of words.
\<close>

theorem chunk_text_short_text_counterexample:
  "(0::int) \<le> 2 \<and> (2::int) < 3 \<and> int (length (py_split ''a b'')) < 3
   \<and> chunk_text ''a b'' 3 2 = Inr [''a b'', ''b'']"
  by code_simp

text \<open>
  Claim C3 as stated fails: with \<open>overlap > chunk_size\<close> the stride is negative, the
  range is empty, and \<open>chunk_text\<close> returns an empty list instead of an error, whatever
  the text.
\<close>

theorem chunk_text_no_fail_fast_counterexample:
  "\<not> ((0::int) \<le> 5 \<and> (5::int) < 2) \<and> py_split ''a b c'' = [''a'', ''b'', ''c'']
   \<and> chunk_text ''a b c'' 2 5 = Inr []"
  by code_simp

text \<open>
  Claim C3, as the code has it. Neither chunking function checks its parameters. With
  \<open>overlap \<ge> chunk_size\<close> both stop at once: \<open>chunk_text\<close> raises the \<open>ValueError\<close> of
  \<open>range\<close> when \<open>overlap = chunk_size\<close> and returns the empty list when
  \<open>overlap > chunk_size\<close>; \<open>process_text_file_for_rag\<close>, on a file it could read, returns
  the one-element list holding the error message in the first case and the empty list in
  the second.
\<close>

theorem chunk_text_invalid_overlap:
  assumes "chunk_size \<le> overlap"
  shows "chunk_text T chunk_size overlap = (if overlap = chunk_size then Inl ValueError else Inr [])
    \<and> process_text_file_for_rag error_text (Inr T) chunk_size overlap =
           (if overlap = chunk_size then [error_text ValueError] else [])"
  using assms
  by (simp add: chunk_text_def process_text_file_for_rag_def py_range_def range_len_def)

theorem chunk_text_invalid_overlap_witness:
  "(2::int) \<le> 2 \<and> chunk_text ''a b c'' 2 2 = Inl ValueError
   \<and> process_text_file_for_rag (\<lambda>e. ''error'') (Inr ''a b c'') 2 2 = [''error'']"
  using chunk_text_invalid_overlap [of 2 2 "''a b c''" "\<lambda>e. ''error''"] by simp


section \<open>Properties of the pipeline\<close>

lemma chunk_text_zero_stride: "chunk_text T c c = Inl ValueError"
  by (simp add: chunk_text_def py_range_def)

lemma chunk_text_negative_stride: "c < ov \<Longrightarrow> chunk_text T c ov = Inr []"
  by (simp add: chunk_text_def py_range_def range_len_def)

text \<open>
  Claim C10. \<open>delete_document\<close> always returns a boolean and never raises. The boolean is
  true exactly when the lookup succeeded, found at least one id, and the delete
  succeeded; an exception of the store in the lookup or in the delete gives \<open>False\<close>,
  the answer a document without chunks gets.
\<close>

theorem delete_document_never_raises:
  "\<exists>b st'. delete_document env st doc_id = (Inr b, st')
     \<and> b = (case coll_get env (collection st) [(''parent_doc_id'', MStr doc_id)] of
              (Inl e, s) \<Rightarrow> False
            | (Inr ids, s) \<Rightarrow> ids \<noteq> [] \<and> fst (coll_delete env s ids) = None)"
  by (auto simp: delete_document_def delete_document_body_def call_get_def call_delete_def
      split: prod.splits sum.splits option.splits)

theorem delete_document_never_raises_witness:
  "fst (delete_document broken_env empty_pipeline ''d1'') = Inr False
   \<and> fst (delete_document mem_env empty_pipeline ''d1'') = Inr False"
  using delete_document_never_raises [of broken_env empty_pipeline "''d1''"]
    delete_document_never_raises [of mem_env empty_pipeline "''d1''"]
  by (auto simp: broken_env_def mem_env_def mem_get_def empty_pipeline_def)

text \<open>
  Claim C5 as stated fails: for an empty content chunking yields no chunk, and
  \<open>add_document\<close> still invokes \<open>add\<close> on the collection, with four empty lists.
\<close>

theorem add_document_empty_content_counterexample:
  "process_document [] 500 = Inr []
   \<and> add_document mem_env empty_pipeline [] (Some ''d1'') None 500
       = (Inr [], \<lparr>collection = [], calls = [Add [] [] [] []]\<rparr>)"
  by code_simp

text \<open>
  Claim C5, as the code has it. When chunking yields no chunk, \<open>add_document\<close> asks the
  model to encode the empty list and then invokes \<open>add\<close> on the collection once, with
  empty lists of ids, documents, embeddings and metadata. It returns the empty list of
  chunk ids when that call succeeds; the state of the collection is the one the call
  leaves. An exception of the model or of the store propagates.
\<close>

theorem add_document_no_chunks:
  assumes "process_document content chunk_size = Inr []"
  shows "add_document env st content doc_id_opt metadata_opt chunk_size =
     (case encode env [] of
        Inl e \<Rightarrow> (Inl e, st)
      | Inr embeddings \<Rightarrow>
          (case coll_add env (collection st) [] [] [] [] of
             (r, s) \<Rightarrow> (case r of Some e \<Rightarrow> Inl e | None \<Rightarrow> Inr [],
                        \<lparr>collection = s, calls = calls st @ [Add [] [] [] []]\<rparr>)))"
  using assms
  by (simp add: add_document_def call_add_def enumerate_eq_zip
      split: sum.splits prod.splits option.splits)

theorem add_document_no_chunks_witness:
  "process_document ''  '' 500 = Inr []
   \<and> add_document mem_env empty_pipeline ''  '' (Some ''d1'') None 500
       = (Inr [], \<lparr>collection = [], calls = [Add [] [] [] []]\<rparr>)"
proof -
  have p: "process_document ''  '' 500 = Inr []" by code_simp
  from add_document_no_chunks [OF p, of mem_env empty_pipeline "Some ''d1''" None] p
  show ?thesis
    by (simp add: mem_env_def mem_encode_def mem_add_def empty_pipeline_def)
qed

lemma prepare_chunks_enumerate:
  "prepare_chunks clock d m n (enumerate k xs) = (ids, docs, embs, metas) \<Longrightarrow>
     length ids = length xs \<and> length metas = length xs
     \<and> docs = map fst xs \<and> embs = map snd xs
     \<and> (\<forall>i < length xs.
           ids ! i = d @ ''_chunk_'' @ str_nat (k + i)
           \<and> map_of (metas ! i) ''chunk_index'' = Some (MInt (int (k + i)))
           \<and> map_of (metas ! i) ''chunk_count'' = Some (MInt (int n))
           \<and> map_of (metas ! i) ''parent_doc_id'' = Some (MStr d))"
proof (induction xs arbitrary: k ids docs embs metas)
  case Nil
  then show ?case by simp
next
  case (Cons x xs)
  obtain c e where x: "x = (c, e)" by (cases x)
  obtain ids' docs' embs' metas' where
    r: "prepare_chunks clock d m n (enumerate (Suc k) xs) = (ids', docs', embs', metas')"
    by (cases "prepare_chunks clock d m n (enumerate (Suc k) xs)") auto
  let ?meta = "AList.update ''timestamp'' (MStr (clock k))
              (AList.update ''chunk_count'' (MInt (int n))
                (AList.update ''chunk_index'' (MInt (int k))
                  (AList.update ''parent_doc_id'' (MStr d) m)))"
  from Cons.prems x r have eqs: "ids = (d @ ''_chunk_'' @ str_nat k) # ids'" "docs = c # docs'"
    "embs = e # embs'" "metas = ?meta # metas'"
    by (simp_all add: Let_def)
  note IH = Cons.IH [OF r]
  have head: "map_of ?meta ''chunk_index'' = Some (MInt (int k))
      \<and> map_of ?meta ''chunk_count'' = Some (MInt (int n))
      \<and> map_of ?meta ''parent_doc_id'' = Some (MStr d)"
    by (simp add: update_conv')
  have "ids ! i = d @ ''_chunk_'' @ str_nat (k + i)
           \<and> map_of (metas ! i) ''chunk_index'' = Some (MInt (int (k + i)))
           \<and> map_of (metas ! i) ''chunk_count'' = Some (MInt (int n))
           \<and> map_of (metas ! i) ''parent_doc_id'' = Some (MStr d)"
    if "i < length (x # xs)" for i
  proof (cases i)
    case 0
    with head eqs show ?thesis by simp
  next
    case (Suc j)
    with that have "j < length xs" by simp
    with IH Suc eqs show ?thesis by simp
  qed
  with IH eqs x show ?case by simp
qed

text \<open>
  Claim C4. Take an ingestion that succeeds, of a content that chunking splits into
  \<open>n\<close> chunks, with a model that answers one embedding per chunk. Then the ingestion
  hands the collection one \<open>add\<close> with the \<open>n\<close> chunks and their embeddings; record
  \<open>i\<close> has the id \<open>doc_id + "_chunk_" + str(i)\<close> and the metadata \<open>chunk_index = i\<close>,
  \<open>chunk_count = n\<close> and \<open>parent_doc_id = doc_id\<close>, for every \<open>i\<close> from 0 below \<open>n\<close>;
  and the ids of these records, \<open>n\<close> of them, are the list the ingestion returns.
\<close>

theorem add_document_chunk_records:
  assumes "add_document env st content doc_id_opt metadata_opt chunk_size = (Inr chunk_ids, st')"
    and "process_document content chunk_size = Inr chunks"
    and "encode env chunks = Inr embeddings"
    and "length embeddings = length chunks"
  shows "\<exists>metadatas.
      calls st' = calls st @ [Add chunk_ids chunks embeddings metadatas]
      \<and> length chunk_ids = length chunks
      \<and> length metadatas = length chunks
      \<and> (\<forall>i < length chunks.
            chunk_ids ! i =
              (case doc_id_opt of None \<Rightarrow> uuid4 env | Some d \<Rightarrow> d) @ ''_chunk_'' @ str_nat i
            \<and> map_of (metadatas ! i) ''chunk_index'' = Some (MInt (int i))
            \<and> map_of (metadatas ! i) ''chunk_count'' = Some (MInt (int (length chunks)))
            \<and> map_of (metadatas ! i) ''parent_doc_id'' =
                Some (MStr (case doc_id_opt of None \<Rightarrow> uuid4 env | Some d \<Rightarrow> d)))"
proof -
  let ?d = "case doc_id_opt of None \<Rightarrow> uuid4 env | Some d \<Rightarrow> d"
  let ?m = "case metadata_opt of None \<Rightarrow> [] | Some m \<Rightarrow> m"
  let ?xs = "zip chunks embeddings"
  obtain ids docs embs metas where
    p: "prepare_chunks (now env) ?d ?m (length chunks) (enumerate 0 ?xs) = (ids, docs, embs, metas)"
    by (cases "prepare_chunks (now env) ?d ?m (length chunks) (enumerate 0 ?xs)") auto
  from assms(4) have len: "length ?xs = length chunks" by simp
  from assms(4) have fs: "map fst ?xs = chunks" "map snd ?xs = embeddings" by simp_all
  note P = prepare_chunks_enumerate [OF p]
  from P fs have de: "docs = chunks" "embs = embeddings" by simp_all
  obtain r s where a: "coll_add env (collection st) ids docs embs metas = (r, s)"
    by (cases "coll_add env (collection st) ids docs embs metas") auto
  from assms(1) assms(2) assms(3) p a have res: "chunk_ids = ids"
    "st' = \<lparr>collection = s, calls = calls st @ [Add ids docs embs metas]\<rparr>"
    by (auto simp: add_document_def call_add_def Let_def split: option.splits)
  from res(2) de res(1) have c: "calls st' = calls st @ [Add chunk_ids chunks embeddings metas]"
    by simp
  from P len res(1) have l: "length chunk_ids = length chunks" "length metas = length chunks"
    by simp_all
  from P len res(1) have q: "\<forall>i < length chunks.
            chunk_ids ! i = ?d @ ''_chunk_'' @ str_nat i
            \<and> map_of (metas ! i) ''chunk_index'' = Some (MInt (int i))
            \<and> map_of (metas ! i) ''chunk_count'' = Some (MInt (int (length chunks)))
            \<and> map_of (metas ! i) ''parent_doc_id'' = Some (MStr ?d)"
    by simp
  show ?thesis
    by (intro exI [of _ metas] conjI) (fact c l q)+
qed

theorem add_document_chunk_records_witness:
  "fst (add_document mem_env empty_pipeline ''a b'' (Some ''d1'') None 51)
     = Inr [''d1_chunk_0'', ''d1_chunk_1'']
   \<and> process_document ''a b'' 51 = Inr [''a b'', ''b'']
   \<and> encode mem_env [''a b'', ''b''] = Inr [[0, 1], [0, 1]]
   \<and> (\<exists>metadatas.
        calls (snd (add_document mem_env empty_pipeline ''a b'' (Some ''d1'') None 51))
          = [Add [''d1_chunk_0'', ''d1_chunk_1''] [''a b'', ''b''] [[0, 1], [0, 1]] metadatas]
        \<and> map_of (metadatas ! 1) ''chunk_index'' = Some (MInt 1)
        \<and> map_of (metadatas ! 1) ''chunk_count'' = Some (MInt 2)
        \<and> map_of (metadatas ! 1) ''parent_doc_id'' = Some (MStr ''d1''))"
proof -
  let ?r = "add_document mem_env empty_pipeline ''a b'' (Some ''d1'') None 51"
  have f: "fst ?r = Inr [''d1_chunk_0'', ''d1_chunk_1'']" by code_simp
  then have h1: "?r = (Inr [''d1_chunk_0'', ''d1_chunk_1''], snd ?r)"
    by (metis prod.collapse)
  have h2: "process_document ''a b'' 51 = Inr [''a b'', ''b'']" by code_simp
  have h3: "encode mem_env [''a b'', ''b''] = Inr [[0, 1], [0, 1]]"
    by (simp add: mem_env_def mem_encode_def)
  have h4: "length [[0, 1], [0, 1 :: real]] = length [''a b'', ''b'']" by simp
  from add_document_chunk_records [OF h1 h2 h3 h4]
  obtain metadatas where
    m: "calls (snd ?r) = calls empty_pipeline
          @ [Add [''d1_chunk_0'', ''d1_chunk_1''] [''a b'', ''b''] [[0, 1], [0, 1]] metadatas]"
      "\<forall>i < length [''a b'', ''b''].
         map_of (metadatas ! i) ''chunk_index'' = Some (MInt (int i))
         \<and> map_of (metadatas ! i) ''chunk_count'' = Some (MInt (int (length [''a b'', ''b''])))
         \<and> map_of (metadatas ! i) ''parent_doc_id'' = Some (MStr ''d1'')"
    by auto
  from m(2) have "map_of (metadatas ! 1) ''chunk_index'' = Some (MInt 1)
        \<and> map_of (metadatas ! 1) ''chunk_count'' = Some (MInt 2)
        \<and> map_of (metadatas ! 1) ''parent_doc_id'' = Some (MStr ''d1'')"
    by (auto dest!: spec [of _ 1])
  with m(1) f h2 h3 show ?thesis
    by (auto simp: empty_pipeline_def)
qed

lemma matches_parent:
  "matches [(''parent_doc_id'', MStr d)] r
     \<longleftrightarrow> map_of (rec_metadata r) ''parent_doc_id'' = Some (MStr d)"
  by (simp add: matches_def)

lemma mem_env_contract: "store_contract (\<lambda>s. s) mem_env"
  by (auto simp: store_contract_def mem_env_def mem_get_def mem_delete_def)

text \<open>
  Claim C8. On a collection that keeps the contract of \<open>get\<close> and \<open>delete\<close>,
  \<open>delete_document\<close> never raises; it returns \<open>True\<close> when at least one record had the
  given \<open>parent_doc_id\<close> and \<open>False\<close> when none had; afterwards no record of the
  collection has that \<open>parent_doc_id\<close>, and no record has been added.
\<close>

theorem delete_document_removes_chunks:
  assumes "store_contract records env"
  shows "\<exists>st'. delete_document env st doc_id =
        (Inr (\<exists>r \<in> set (records (collection st)).
                map_of (rec_metadata r) ''parent_doc_id'' = Some (MStr doc_id)), st')
     \<and> (\<forall>r \<in> set (records (collection st')).
          map_of (rec_metadata r) ''parent_doc_id'' \<noteq> Some (MStr doc_id))
     \<and> set (records (collection st')) \<subseteq> set (records (collection st))"
proof -
  let ?w = "[(''parent_doc_id'', MStr doc_id)]"
  let ?P = "\<lambda>r. map_of (rec_metadata r) ''parent_doc_id'' = Some (MStr doc_id)"
  from assms obtain ids s1 where
    g: "coll_get env (collection st) ?w = (Inr ids, s1)" "records s1 = records (collection st)"
      "set ids = rec_id ` {r \<in> set (records (collection st)). matches ?w r}"
    unfolding store_contract_def by blast
  from g(3) have ids: "set ids = rec_id ` {r \<in> set (records (collection st)). ?P r}"
    by (simp only: matches_parent)
  show ?thesis
  proof (cases "ids = []")
    case True
    with ids have none: "\<forall>r \<in> set (records (collection st)). \<not> ?P r" by auto
    let ?st = "\<lparr>collection = s1, calls = calls st @ [Get ?w]\<rparr>"
    from g(1) True have "delete_document env st doc_id = (Inr False, ?st)"
      by (simp add: delete_document_def delete_document_body_def call_get_def)
    with none g(2) show ?thesis by auto
  next
    case False
    then obtain i where "i \<in> set ids" by (cases ids) auto
    with ids have some: "\<exists>r \<in> set (records (collection st)). ?P r" by auto
    from assms obtain s2 where
      d: "coll_delete env s1 ids = (None, s2)"
        "set (records s2) = {r \<in> set (records s1). rec_id r \<notin> set ids}"
      unfolding store_contract_def by blast
    let ?st = "\<lparr>collection = s2, calls = calls st @ [Get ?w, Delete ids]\<rparr>"
    from g(1) d(1) False have "delete_document env st doc_id = (Inr True, ?st)"
      by (simp add: delete_document_def delete_document_body_def call_get_def call_delete_def)
    moreover from d(2) g(2) ids have "\<forall>r \<in> set (records s2). \<not> ?P r" by auto
    moreover from d(2) g(2) have "set (records s2) \<subseteq> set (records (collection st))" by auto
    ultimately show ?thesis using some by auto
  qed
qed

theorem delete_document_removes_chunks_witness:
  "store_contract (\<lambda>s. s) mem_env
   \<and> fst (delete_document mem_env
        \<lparr>collection = [\<lparr>rec_id = ''d1_chunk_0'', rec_document = ''a b'', rec_embedding = [0, 1],
                        rec_metadata = [(''parent_doc_id'', MStr ''d1'')]\<rparr>], calls = []\<rparr> ''d1'')
       = Inr True
   \<and> fst (delete_document mem_env empty_pipeline ''d1'') = Inr False"
  using mem_env_contract
    delete_document_removes_chunks [OF mem_env_contract,
      of "\<lparr>collection = [\<lparr>rec_id = ''d1_chunk_0'', rec_document = ''a b'', rec_embedding = [0, 1],
                        rec_metadata = [(''parent_doc_id'', MStr ''d1'')]\<rparr>], calls = []\<rparr>" "''d1''"]
    delete_document_removes_chunks [OF mem_env_contract, of empty_pipeline "''d1''"]
  by (auto simp: empty_pipeline_def)

lemma search_loop_wellformed:
  assumes "length (r_documents results) = length (r_ids results)"
    and "length (r_metadatas results) = length (r_ids results)"
    and "r_distances results = Some ds" and "length ds = length (r_ids results)"
    and "\<forall>i \<in> set is. i < length (r_ids results)"
  shows "search_loop results min_similarity is =
     Inr (map (\<lambda>i. \<lparr>document_id = r_ids results ! i, result_content = r_documents results ! i,
                     similarity_score = 1 - ds ! i, result_metadata = r_metadatas results ! i\<rparr>)
           (filter (\<lambda>i. min_similarity \<le> 1 - ds ! i) is))"
  using assms(5)
proof (induction "is")
  case Nil
  then show ?case by simp
next
  case (Cons i "is")
  then have i: "i < length (r_ids results)" by simp
  from Cons have IH: "search_loop results min_similarity is =
     Inr (map (\<lambda>i. \<lparr>document_id = r_ids results ! i, result_content = r_documents results ! i,
                     similarity_score = 1 - ds ! i, result_metadata = r_metadatas results ! i\<rparr>)
           (filter (\<lambda>i. min_similarity \<le> 1 - ds ! i) is))"
    by simp
  from i assms(1-4) show ?case
    by (simp add: py_index_def IH)
qed

text \<open>
  Claim C2. Take a search whose query the model embeds and whose store answers a
  well-formed response (as many documents, metadata and distances as ids) of at most
  \<open>n_results\<close> hits. Then \<open>search\<close> returns, without error, the hits in the order of
  the response, each with \<open>similarity_score = 1 - distance\<close>, leaving out exactly the
  hits whose score is below \<open>min_similarity\<close>; so it returns at most \<open>n_results\<close>
  results, each with a score of at least \<open>min_similarity\<close>.
\<close>

theorem search_scores_and_bound:
  assumes "encode env [query] = Inr (query_embedding # others)"
    and "coll_query env (collection st) query_embedding n_results
           (case filter_metadata of None \<Rightarrow> None | Some m \<Rightarrow> if m \<noteq> [] then Some m else None)
         = (Inr results, s)"
    and "length (r_documents results) = length (r_ids results)"
    and "length (r_metadatas results) = length (r_ids results)"
    and "r_distances results = Some ds" and "length ds = length (r_ids results)"
    and "int (length (r_ids results)) \<le> n_results"
  shows "\<exists>found st'.
      search env st query n_results filter_metadata min_similarity = (Inr found, st')
      \<and> found =
          map (\<lambda>i. \<lparr>document_id = r_ids results ! i, result_content = r_documents results ! i,
                     similarity_score = 1 - ds ! i, result_metadata = r_metadatas results ! i\<rparr>)
            (filter (\<lambda>i. min_similarity \<le> 1 - ds ! i) [0..<length (r_ids results)])
      \<and> int (length found) \<le> n_results
      \<and> (\<forall>r \<in> set found. min_similarity \<le> similarity_score r)"
proof -
  let ?n = "length (r_ids results)"
  let ?hit = "\<lambda>i. \<lparr>document_id = r_ids results ! i, result_content = r_documents results ! i,
                     similarity_score = 1 - ds ! i, result_metadata = r_metadatas results ! i\<rparr>"
  let ?found = "map ?hit (filter (\<lambda>i. min_similarity \<le> 1 - ds ! i) [0..<?n])"
  let ?w = "case filter_metadata of None \<Rightarrow> None | Some m \<Rightarrow> if m \<noteq> [] then Some m else None"
  let ?st = "\<lparr>collection = s, calls = calls st @ [Query query_embedding n_results ?w]\<rparr>"
  have "\<forall>i \<in> set [0..<?n]. i < ?n" by simp
  with assms(3-6) have loop: "search_loop results min_similarity [0..<?n] = Inr ?found"
    by (rule search_loop_wellformed)
  from assms(1,2) loop have s: "search env st query n_results filter_metadata min_similarity
      = (Inr ?found, ?st)"
    by (simp add: search_def call_query_def py_index_def Let_def)
  have "length ?found \<le> ?n"
    using length_filter_le [of "\<lambda>i. min_similarity \<le> 1 - ds ! i" "[0..<?n]"] by simp
  with assms(7) have b: "int (length ?found) \<le> n_results" by linarith
  have m: "\<forall>r \<in> set ?found. min_similarity \<le> similarity_score r" by auto
  show ?thesis
    by (intro exI [of _ ?found] exI [of _ ?st] conjI refl) (fact s b m)+
qed

theorem search_scores_and_bound_witness:
  "encode mem_env [''q''] = Inr [[0, 1]]
   \<and> fst (coll_query mem_env (collection demo_pipeline) [0, 1] 3 None) =
       Inr \<lparr>r_ids = [''b_chunk_0'', ''a_chunk_0'', ''c_chunk_0''],
            r_documents = [''x'', ''x'', ''xy''],
            r_metadatas = [[(''parent_doc_id'', MStr ''b'')], [(''parent_doc_id'', MStr ''a'')],
                           [(''parent_doc_id'', MStr ''c'')]],
            r_distances = Some [0, 0, 1]\<rparr>
   \<and> (\<exists>found. fst (search mem_env demo_pipeline ''q'' 3 None (1 / 2)) = Inr found
        \<and> map document_id found = [''b_chunk_0'', ''a_chunk_0'']
        \<and> map similarity_score found = [1, 1])"
proof -
  let ?R = "\<lparr>r_ids = [''b_chunk_0'', ''a_chunk_0'', ''c_chunk_0''],
            r_documents = [''x'', ''x'', ''xy''],
            r_metadatas = [[(''parent_doc_id'', MStr ''b'')], [(''parent_doc_id'', MStr ''a'')],
                           [(''parent_doc_id'', MStr ''c'')]],
            r_distances = Some [0, 0, 1]\<rparr>"
  have h1: "encode mem_env [''q''] = Inr ([0, 1] # [])"
    by (simp add: mem_env_def mem_encode_def)
  have q: "coll_query mem_env (collection demo_pipeline) [0, 1] 3 None
      = (Inr ?R, collection demo_pipeline)"
    by code_simp
  then have h2: "coll_query mem_env (collection demo_pipeline) [0, 1] 3
      (case None of None \<Rightarrow> None | Some m \<Rightarrow> if m \<noteq> [] then Some m else None)
      = (Inr ?R, collection demo_pipeline)"
    by simp
  have h3: "length (r_documents ?R) = length (r_ids ?R)" by simp
  have h4: "length (r_metadatas ?R) = length (r_ids ?R)" by simp
  have h5: "r_distances ?R = Some [0, 0, 1]" by simp
  have h6: "length [0, 0, 1 :: real] = length (r_ids ?R)" by simp
  have h7: "int (length (r_ids ?R)) \<le> 3" by simp
  have u: "[0..<3] = [0, 1, 2]" by code_simp
  from search_scores_and_bound [OF h1 h2 h3 h4 h5 h6 h7, of "1 / 2"]
  obtain found st' where
    f: "search mem_env demo_pipeline ''q'' 3 None (1 / 2) = (Inr found, st')"
      "found = map (\<lambda>i. \<lparr>document_id = r_ids ?R ! i, result_content = r_documents ?R ! i,
                     similarity_score = 1 - [0, 0, 1] ! i, result_metadata = r_metadatas ?R ! i\<rparr>)
            (filter (\<lambda>i. 1 / 2 \<le> 1 - [0, 0, 1 :: real] ! i) [0..<length (r_ids ?R)])"
    by blast
  from f(2) have "map document_id found = [''b_chunk_0'', ''a_chunk_0'']"
    "map similarity_score found = [1, 1]"
    by (simp_all add: u)
  with f(1) h1 q show ?thesis by simp
qed

lemma add_batch_append:
  "add_batch env st (xs @ ys) cs =
     (case add_batch env st xs cs of
        (Inl e, st') \<Rightarrow> (Inl e, st')
      | (Inr a, st') \<Rightarrow>
          (case add_batch env st' ys cs of
             (Inl e, st'') \<Rightarrow> (Inl e, st'')
           | (Inr b, st'') \<Rightarrow> (Inr (a @ b), st'')))"
proof (induction xs arbitrary: st)
  case Nil
  then show ?case by (simp split: prod.splits sum.splits)
next
  case (Cons x xs)
  show ?case
    by (simp add: Cons.IH split: prod.splits sum.splits)
qed

lemma add_batches_windows:
  assumes "0 < b"
  shows "add_batches env st docs cs (int b) (map (\<lambda>k. int (k * b)) [j..<m])
         = add_batch env st (take ((m - j) * b) (drop (j * b) docs)) cs"
proof (induction "m - j" arbitrary: j st)
  case 0
  then show ?case by simp
next
  case (Suc n)
  then have jm: "j < m" and n: "n = m - Suc j" by simp_all
  from jm have u: "[j..<m] = j # [Suc j..<m]" by (rule upt_conv_Cons)
  have sl: "py_slice docs (int (j * b)) (int (j * b) + int b) = take b (drop (j * b) docs)"
    by (simp add: py_slice_nonneg nat_add_distrib del: of_nat_mult)
  have IH: "add_batches env st' docs cs (int b) (map (\<lambda>k. int (k * b)) [Suc j..<m])
         = add_batch env st' (take ((m - Suc j) * b) (drop (Suc j * b) docs)) cs" for st'
    using Suc.hyps(1) [OF n] .
  from jm have "(m - j) * b = b + (m - Suc j) * b"
    by (metis Suc_diff_Suc mult_Suc)
  then have "take ((m - j) * b) (drop (j * b) docs)
      = take b (drop (j * b) docs) @ take ((m - Suc j) * b) (drop (Suc j * b) docs)"
    by (simp add: take_add add.commute)
  then show ?case
    by (simp add: u sl IH add_batch_append del: of_nat_mult split: prod.splits sum.splits)
qed

lemma add_documents_batch_sequential:
  assumes "0 < batch_size"
  shows "add_documents_batch env st docs cs batch_size = add_batch env st docs cs"
proof -
  let ?b = "nat batch_size"
  let ?m = "(length docs + ?b - 1) div ?b"
  from assms have b: "0 < ?b" "int ?b = batch_size" by simp_all
  have "(length docs + ?b - 1) mod ?b < ?b" using b(1) by simp
  moreover have "?m * ?b + (length docs + ?b - 1) mod ?b = length docs + ?b - 1"
    by (rule div_mult_mod_eq)
  ultimately have cover: "length docs \<le> ?m * ?b" by linarith
  have "add_documents_batch env st docs cs (int ?b)
      = add_batches env st docs cs (int ?b) (map (\<lambda>k. int (k * ?b)) [0..<?m])"
    using py_range_up [OF b(1), of "length docs"] by (simp add: add_documents_batch_def)
  also have "\<dots> = add_batch env st (take ((?m - 0) * ?b) (drop (0 * ?b) docs)) cs"
    by (rule add_batches_windows [OF b(1)])
  also have "\<dots> = add_batch env st docs cs" using cover by simp
  finally show ?thesis using b(2) by simp
qed

text \<open>
  Claim C7, as the code has it. \<open>add_documents_batch\<close> has no handler: with a positive
  \<open>batch_size\<close>, when the documents before \<open>d\<close> are ingested and the ingestion of \<open>d\<close>
  raises, the whole call raises that exception, and the state is the one the failure
  left, whatever documents follow \<open>d\<close>: they are not attempted, and neither chunk ids
  nor failures are returned.
\<close>

theorem add_documents_batch_aborts:
  assumes "0 < batch_size"
    and "add_batch env st before chunk_size = (Inr ids, st1)"
    and "add_document env st1 (doc_content d) (Some (doc_ident d)) (Some (doc_metadata d))
           chunk_size = (Inl e, st2)"
  shows "add_documents_batch env st (before @ d # rest) chunk_size batch_size = (Inl e, st2)"
  using assms(2,3)
  by (simp add: add_documents_batch_sequential [OF assms(1)] add_batch_append)

text \<open>
  Claim C7 as stated fails: when the model fails on the first of two documents, the
  call raises, and the second document is never ingested (the collection is empty and
  no operation was invoked on it).
\<close>

theorem add_documents_batch_abort_counterexample:
  "add_documents_batch flaky_env empty_pipeline
     [\<lparr>doc_ident = ''d1'', doc_content = ''bad'', doc_metadata = [], doc_timestamp = ''t''\<rparr>,
      \<lparr>doc_ident = ''d2'', doc_content = ''good text'', doc_metadata = [], doc_timestamp = ''t''\<rparr>]
     500 100
   = (Inl (OtherError ''model failed''), \<lparr>collection = [], calls = []\<rparr>)"
  by code_simp

theorem add_documents_batch_aborts_witness:
  "(0::int) < 100
   \<and> add_batch flaky_env empty_pipeline [] 500 = (Inr [], empty_pipeline)
   \<and> add_document flaky_env empty_pipeline ''bad'' (Some ''d1'') (Some []) 500
       = (Inl (OtherError ''model failed''), empty_pipeline)
   \<and> add_documents_batch flaky_env empty_pipeline
       ([] @ \<lparr>doc_ident = ''d1'', doc_content = ''bad'', doc_metadata = [], doc_timestamp = ''t''\<rparr>
          # [\<lparr>doc_ident = ''d3'', doc_content = ''more text'', doc_metadata = [],
              doc_timestamp = ''t''\<rparr>]) 500 100
       = (Inl (OtherError ''model failed''), empty_pipeline)"
proof -
  let ?d = "\<lparr>doc_ident = ''d1'', doc_content = ''bad'', doc_metadata = [], doc_timestamp = ''t''\<rparr>"
  have h1: "(0::int) < 100" by simp
  have h2: "add_batch flaky_env empty_pipeline [] 500 = (Inr [], empty_pipeline)" by simp
  have a: "add_document flaky_env empty_pipeline ''bad'' (Some ''d1'') (Some []) 500
       = (Inl (OtherError ''model failed''), empty_pipeline)"
    by code_simp
  then have h3: "add_document flaky_env empty_pipeline (doc_content ?d) (Some (doc_ident ?d))
       (Some (doc_metadata ?d)) 500 = (Inl (OtherError ''model failed''), empty_pipeline)"
    by simp
  from add_documents_batch_aborts [OF h1 h2 h3] h1 h2 a show ?thesis by blast
qed

lemma rerank_loop_rescored:
  assumes "\<forall>r \<in> set initial. \<exists>e rest.
      encode env [result_content r] = Inr (e # rest) \<and> cosine env query_embedding e = Inr (score r)"
  shows "rerank_loop env query_embedding initial
         = Inr (map (\<lambda>r. r\<lparr>similarity_score := score r\<rparr>) initial)"
  using assms
proof (induction initial)
  case Nil
  then show ?case by simp
next
  case (Cons r initial)
  then obtain e rest where
    e: "encode env [result_content r] = Inr (e # rest)" "cosine env query_embedding e = Inr (score r)"
    by auto
  from Cons have "rerank_loop env query_embedding initial
         = Inr (map (\<lambda>r. r\<lparr>similarity_score := score r\<rparr>) initial)"
    by simp
  with e show ?case by (simp add: py_index_def)
qed

lemma py_sort_reverse_descending: "sorted (rev (map key (py_sort_reverse key xs)))"
  by (simp add: py_sort_reverse_def rev_map [symmetric])

lemma py_sort_reverse_stable:
  "filter (\<lambda>x. key x = v) (py_sort_reverse key xs) = filter (\<lambda>x. key x = v) xs"
proof -
  have "filter (\<lambda>x. key x = v) (py_sort_reverse key xs)
      = rev (filter (\<lambda>x. key x = v) (sort_key key (rev xs)))"
    by (simp add: py_sort_reverse_def rev_filter)
  also have "\<dots> = rev (filter (\<lambda>x. key x = v) (rev xs))"
    by (simp only: sort_key_stable)
  also have "\<dots> = filter (\<lambda>x. key x = v) xs"
    by (simp add: rev_filter)
  finally show ?thesis .
qed

lemma py_sort_reverse_same_elements:
  "set (py_sort_reverse key xs) = set xs" "length (py_sort_reverse key xs) = length xs"
  by (simp_all add: py_sort_reverse_def)

lemma py_slice_prefix: "0 \<le> k \<Longrightarrow> py_slice xs 0 k = take (nat k) xs"
  by (simp add: py_slice_nonneg)

text \<open>
  Claim C6, as the code has it. Take the results of the initial search, a model that
  embeds the query and the content of each result, and the similarity \<open>score r\<close> computed
  between the query embedding and the embedding of the content of \<open>r\<close>. For
  \<open>rerank_top_k \<ge> 0\<close>, \<open>semantic_search_with_reranking\<close> returns the first
  \<open>rerank_top_k\<close> (all, if there are fewer) of a list \<open>ranked\<close> that holds the results
  of the search with their scores replaced by the recomputed ones, in descending order of
  score; results with equal scores keep the order the search returned them in. The
  chunk id plays no part in the order.
\<close>

theorem rerank_order:
  assumes "search env st query n_results None 0 = (Inr initial, st')"
    and "encode env [query] = Inr (query_embedding # others)"
    and "\<forall>r \<in> set initial. \<exists>e rest.
      encode env [result_content r] = Inr (e # rest) \<and> cosine env query_embedding e = Inr (score r)"
    and "0 \<le> rerank_top_k"
  shows "\<exists>ranked.
      semantic_search_with_reranking env st query n_results rerank_top_k
        = (Inr (take (nat rerank_top_k) ranked), st')
      \<and> set ranked = set (map (\<lambda>r. r\<lparr>similarity_score := score r\<rparr>) initial)
      \<and> length ranked = length initial
      \<and> sorted (rev (map similarity_score ranked))
      \<and> (\<forall>v. filter (\<lambda>r. similarity_score r = v) ranked
             = filter (\<lambda>r. similarity_score r = v)
                 (map (\<lambda>r. r\<lparr>similarity_score := score r\<rparr>) initial))"
proof -
  let ?rescored = "map (\<lambda>r. r\<lparr>similarity_score := score r\<rparr>) initial"
  let ?ranked = "py_sort_reverse similarity_score ?rescored"
  from assms(3) have loop: "rerank_loop env query_embedding initial = Inr ?rescored"
    by (rule rerank_loop_rescored)
  have res: "semantic_search_with_reranking env st query n_results rerank_top_k
        = (Inr (take (nat rerank_top_k) ?ranked), st')"
  proof (cases "initial = []")
    case True
    with assms(1) show ?thesis
      by (simp add: semantic_search_with_reranking_def py_sort_reverse_def)
  next
    case False
    with assms(1,2,4) loop show ?thesis
      by (simp add: semantic_search_with_reranking_def py_index_def py_slice_prefix)
  qed
  have s: "set ?ranked = set ?rescored" by (rule py_sort_reverse_same_elements)
  have l: "length ?ranked = length initial" by (simp add: py_sort_reverse_same_elements)
  have d: "sorted (rev (map similarity_score ?ranked))" by (rule py_sort_reverse_descending)
  have t: "\<forall>v. filter (\<lambda>r. similarity_score r = v) ?ranked
             = filter (\<lambda>r. similarity_score r = v) ?rescored"
    by (simp add: py_sort_reverse_stable)
  show ?thesis
    by (intro exI [of _ ?ranked] conjI) (fact res s l d t)+
qed

theorem rerank_order_witness:
  "fst (search mem_env demo_pipeline ''q'' 10 None 0) =
     Inr [\<lparr>document_id = ''b_chunk_0'', result_content = ''x'', similarity_score = 1,
           result_metadata = [(''parent_doc_id'', MStr ''b'')]\<rparr>,
          \<lparr>document_id = ''a_chunk_0'', result_content = ''x'', similarity_score = 1,
           result_metadata = [(''parent_doc_id'', MStr ''a'')]\<rparr>,
          \<lparr>document_id = ''c_chunk_0'', result_content = ''xy'', similarity_score = 0,
           result_metadata = [(''parent_doc_id'', MStr ''c'')]\<rparr>]
   \<and> encode mem_env [''q''] = Inr [[0, 1]]
   \<and> (0::int) \<le> 2
   \<and> (\<exists>ranked. fst (semantic_search_with_reranking mem_env demo_pipeline ''q'' 10 2)
                     = Inr (take (nat 2) ranked)
        \<and> length ranked = 3
        \<and> sorted (rev (map similarity_score ranked)))"
proof -
  let ?initial = "[\<lparr>document_id = ''b_chunk_0'', result_content = ''x'', similarity_score = 1,
           result_metadata = [(''parent_doc_id'', MStr ''b'')]\<rparr>,
          \<lparr>document_id = ''a_chunk_0'', result_content = ''x'', similarity_score = 1,
           result_metadata = [(''parent_doc_id'', MStr ''a'')]\<rparr>,
          \<lparr>document_id = ''c_chunk_0'', result_content = ''xy'', similarity_score = 0,
           result_metadata = [(''parent_doc_id'', MStr ''c'')]\<rparr>]"
  let ?score = "\<lambda>r. if even (length (result_content r)) then 0 else (1::real)"
  let ?s = "search mem_env demo_pipeline ''q'' 10 None 0"
  have f: "fst ?s = Inr ?initial" by code_simp
  then have h1: "?s = (Inr ?initial, snd ?s)" by (metis prod.collapse)
  have h2: "encode mem_env [''q''] = Inr ([0, 1] # [])"
    by (simp add: mem_env_def mem_encode_def)
  have h3: "\<forall>r \<in> set ?initial. \<exists>e rest.
      encode mem_env [result_content r] = Inr (e # rest) \<and> cosine mem_env [0, 1] e = Inr (?score r)"
    by (simp add: mem_env_def mem_encode_def dot_def)
  have h4: "(0::int) \<le> 2" by simp
  from rerank_order [OF h1 h2 h3 h4]
  obtain ranked where
    "semantic_search_with_reranking mem_env demo_pipeline ''q'' 10 2
        = (Inr (take (nat 2) ranked), snd ?s)"
    "length ranked = length ?initial" "sorted (rev (map similarity_score ranked))"
    by blast
  then have "fst (semantic_search_with_reranking mem_env demo_pipeline ''q'' 10 2)
                     = Inr (take (nat 2) ranked)
        \<and> length ranked = 3 \<and> sorted (rev (map similarity_score ranked))"
    by simp
  with f h2 show ?thesis by auto
qed

text \<open>
  Claim C6 as stated fails in its tie-break: two chunks with the same text get the same
  recomputed score, and the one the search returned first stays first, here
  \<open>b_chunk_0\<close> before \<open>a_chunk_0\<close>, against the ascending order of chunk ids.
\<close>

theorem rerank_tie_counterexample:
  "map_sum id (map (\<lambda>r. (document_id r, similarity_score r)))
     (fst (semantic_search_with_reranking mem_env demo_pipeline ''q'' 10 5))
   = Inr [(''b_chunk_0'', 1), (''a_chunk_0'', 1), (''c_chunk_0'', 0)]
   \<and> (of_char CHR ''a'' :: nat) < of_char CHR ''b''"
  by code_simp

lemma delete_document_returns:
  "\<exists>b st'. delete_document env st doc_id = (Inr b, st')"
  by (auto simp: delete_document_def split: prod.splits sum.splits)

text \<open>
  Claim C9. \<open>process_document\<close> has no overlap parameter and chunks with overlap 50,
  and \<open>add_document\<close> chunks through it, as \<open>update_document\<close> and
  \<open>add_documents_batch\<close> do through \<open>add_document\<close>. So with \<open>chunk_size = 50\<close> the
  stride is zero: chunking raises the \<open>ValueError\<close> of \<open>range\<close>, \<open>add_document\<close> raises
  it before it reaches the model or the store, \<open>update_document\<close> raises it after its
  delete, and a batch with at least one document raises it. With \<open>chunk_size < 50\<close> the
  stride is negative and chunking returns the empty list, whatever the content.
\<close>

theorem add_document_fixed_overlap:
  "process_document content chunk_size = chunk_text (clean_text content) chunk_size 50
   \<and> (chunk_size = 50 \<longrightarrow>
        process_document content chunk_size = Inl ValueError
        \<and> add_document env st content doc_id_opt metadata_opt chunk_size = (Inl ValueError, st)
        \<and> fst (update_document env st doc_id content metadata_opt chunk_size) = Inl ValueError
        \<and> (0 < batch_size \<longrightarrow>
             add_documents_batch env st (doc # documents) chunk_size batch_size
               = (Inl ValueError, st)))
   \<and> (chunk_size < 50 \<longrightarrow> process_document content chunk_size = Inr [])"
proof -
  have p: "process_document c 50 = Inl ValueError" for c
    by (simp add: process_document_def chunk_text_zero_stride)
  have a: "add_document env s c d m 50 = (Inl ValueError, s)" for s :: "'a pipeline" and c d m
    by (simp add: add_document_def p)
  obtain b st' where "delete_document env st doc_id = (Inr b, st')"
    using delete_document_returns by blast
  then have u: "fst (update_document env st doc_id content metadata_opt 50) = Inl ValueError"
    by (simp add: update_document_def a)
  have bt: "0 < batch_size \<Longrightarrow>
      add_documents_batch env st (doc # documents) 50 batch_size = (Inl ValueError, st)"
    by (simp add: add_documents_batch_sequential a)
  have n: "chunk_size < 50 \<Longrightarrow> process_document content chunk_size = Inr []"
    by (simp add: process_document_def chunk_text_negative_stride)
  show ?thesis
    using p a u bt n by (auto simp: process_document_def)
qed

theorem add_document_fixed_overlap_witness:
  "py_split ''a b'' \<noteq> []
   \<and> process_document ''a b'' 50 = Inl ValueError
   \<and> add_document mem_env empty_pipeline ''a b'' None None 50 = (Inl ValueError, empty_pipeline)
   \<and> (0::int) < 100
   \<and> add_documents_batch mem_env empty_pipeline
        [\<lparr>doc_ident = ''d1'', doc_content = ''a b'', doc_metadata = [], doc_timestamp = ''t''\<rparr>]
        50 100 = (Inl ValueError, empty_pipeline)
   \<and> (20::int) < 50 \<and> process_document ''a b'' 20 = Inr []"
proof -
  let ?d = "\<lparr>doc_ident = ''d1'', doc_content = ''a b'', doc_metadata = [], doc_timestamp = ''t''\<rparr>"
  have w: "py_split ''a b'' \<noteq> []" by code_simp
  have a: "process_document ''a b'' 50 = Inl ValueError
      \<and> add_document mem_env empty_pipeline ''a b'' None None 50 = (Inl ValueError, empty_pipeline)
      \<and> add_documents_batch mem_env empty_pipeline [?d] 50 100 = (Inl ValueError, empty_pipeline)"
    using add_document_fixed_overlap [of "''a b''" 50 mem_env empty_pipeline None None
        "''d1''" 100 ?d "[]", THEN conjunct2, THEN conjunct1]
    by simp
  have b: "process_document ''a b'' 20 = Inr []"
    using add_document_fixed_overlap [of "''a b''" 20 mem_env empty_pipeline None None
        "''d1''" 100 ?d "[]", THEN conjunct2, THEN conjunct2]
    by simp
  from w a b show ?thesis by simp
qed


end
